theory Spec2Isabelle
  imports Complex_Main "HOL-Library.Log_Nat"
begin

section \<open>JavaScript values\<close>

text \<open>
  The module \<^verbatim>\<open>src/sevices.js\<close> is dynamically typed. The values it handles are JSON
  values (what \<^verbatim>\<open>res.json()\<close> yields), \<^verbatim>\<open>undefined\<close> (an absent property, an omitted
  argument) and numbers. A number is a double: a rational that a double has as its
  value, or one of the three special values. \<^verbatim>\<open>-0\<close> is \<open>Num 0\<close>: the two are equal under
  every comparison and both are falsy.
\<close>

datatype js_number = Num rat | PosInfinity | NegInfinity | NaN

datatype js =
    JUndefined
  | JNull
  | JBool bool
  | JNum js_number
  | JStr string
  | JArr "js list"
  | JObj "(string \<times> js) list"

text \<open>Truthiness (the language's \<^verbatim>\<open>ToBoolean\<close>), as used by \<^verbatim>\<open>!\<close>, \<^verbatim>\<open>&&\<close> and \<^verbatim>\<open>||\<close>.\<close>

fun num_truthy :: "js_number \<Rightarrow> bool" where
  "num_truthy (Num r) = (r \<noteq> 0)"
| "num_truthy PosInfinity = True"
| "num_truthy NegInfinity = True"
| "num_truthy NaN = False"

fun truthy :: "js \<Rightarrow> bool" where
  "truthy JUndefined = False"
| "truthy JNull = False"
| "truthy (JBool b) = b"
| "truthy (JNum n) = num_truthy n"
| "truthy (JStr s) = (s \<noteq> [])"
| "truthy (JArr xs) = True"
| "truthy (JObj kvs) = True"

text \<open>
  \<^verbatim>\<open>a + b\<close> on numbers is the addition of IEEE 754 doubles: the exact sum rounded to the
  nearest double, ties to the even significand, \<^verbatim>\<open>Infinity\<close> beyond the largest double.
  In \<open>Num r\<close> the rational \<open>r\<close> is the value of a double; \<open>round_double\<close> gives the double
  nearest to any rational, and \<open>num_add\<close> applies it to its operands too, which leaves
  doubles as they are: the values of \<open>round_double\<close> are its fixed points (lemma
  \<open>round_double_fixed\<close> below), so a number \<open>x\<close> is a double when \<open>to_double x = x\<close>.
\<close>

text \<open>\<open>pow2 k\<close> is \<open>2\<close> to the power \<open>k\<close>, for any integer \<open>k\<close>.\<close>

definition pow2 :: "int \<Rightarrow> rat" where
  "pow2 k = (if 0 \<le> k then 2 ^ nat k else 1 / 2 ^ nat (- k))"

text \<open>The number of binary digits of a positive integer.\<close>

function bit_length :: "int \<Rightarrow> int" where
  "bit_length n = (if n \<le> 0 then 0 else 1 + bit_length (n div 2))"
  by pat_completeness auto
termination
  by (relation "measure nat") auto

declare bit_length.simps [simp del]

text \<open>The exponent \<open>e\<close> of a positive rational \<open>x\<close>: \<open>pow2 e \<le> x < pow2 (e + 1)\<close>.\<close>

definition floor_log2 :: "rat \<Rightarrow> int" where
  "floor_log2 x =
     (if 1 \<le> x then bit_length \<lfloor>x\<rfloor> - 1
      else - bit_length (\<lceil>1 / x\<rceil> - 1))"

text \<open>The nearest integer, a tie going to the even one.\<close>

definition round_half_even :: "rat \<Rightarrow> int" where
  "round_half_even m =
     (let f = \<lfloor>m\<rfloor>; r = m - of_int f
      in if r < 1 / 2 then f else if 1 / 2 < r then f + 1 else if even f then f else f + 1)"

text \<open>
  The double nearest to a positive rational: 53 significant bits at the exponent of
  \<open>x\<close>, which is at least \<open>-1022\<close> (below it the doubles are subnormal, spaced
  \<open>pow2 (-1074)\<close> apart), and \<^verbatim>\<open>Infinity\<close> when the rounded value reaches \<open>pow2 1024\<close>.
\<close>

definition round_pos :: "rat \<Rightarrow> js_number" where
  "round_pos x =
     (let e = max (floor_log2 x) (- 1022);
          u = pow2 (e - 52);
          y = of_int (round_half_even (x / u)) * u
      in if pow2 1024 \<le> y then PosInfinity else Num y)"

fun num_neg :: "js_number \<Rightarrow> js_number" where
  "num_neg (Num r) = Num (- r)"
| "num_neg PosInfinity = NegInfinity"
| "num_neg NegInfinity = PosInfinity"
| "num_neg NaN = NaN"

definition round_double :: "rat \<Rightarrow> js_number" where
  "round_double x =
     (if x = 0 then Num 0 else if 0 < x then round_pos x else num_neg (round_pos (- x)))"

fun to_double :: "js_number \<Rightarrow> js_number" where
  "to_double (Num r) = round_double r"
| "to_double x = x"

fun add_doubles :: "js_number \<Rightarrow> js_number \<Rightarrow> js_number" where
  "add_doubles NaN y = NaN"
| "add_doubles x NaN = NaN"
| "add_doubles (Num a) (Num b) = round_double (a + b)"
| "add_doubles PosInfinity NegInfinity = NaN"
| "add_doubles NegInfinity PosInfinity = NaN"
| "add_doubles PosInfinity y = PosInfinity"
| "add_doubles NegInfinity y = NegInfinity"
| "add_doubles (Num a) y = y"

definition num_add :: "js_number \<Rightarrow> js_number \<Rightarrow> js_number" where
  "num_add x y = add_doubles (to_double x) (to_double y)"

text \<open>\<^verbatim>\<open>a > b\<close> on numbers.\<close>

fun num_gt :: "js_number \<Rightarrow> js_number \<Rightarrow> bool" where
  "num_gt NaN y = False"
| "num_gt x NaN = False"
| "num_gt (Num a) (Num b) = (b < a)"
| "num_gt NegInfinity y = False"
| "num_gt x PosInfinity = False"
| "num_gt PosInfinity y = True"
| "num_gt (Num a) NegInfinity = True"

text \<open>
  The decimal rendering of a non-negative integer, as a template literal renders
  \<^verbatim>\<open>res.status\<close>.
\<close>

definition digit_char :: "nat \<Rightarrow> char" where
  "digit_char d = ''0123456789'' ! d"

fun string_of_nat :: "nat \<Rightarrow> string" where
  "string_of_nat n =
     (if n < 10 then [digit_char n]
      else string_of_nat (n div 10) @ [digit_char (n mod 10)])"

declare string_of_nat.simps [simp del]

section \<open>The environment of one request\<close>

text \<open>
  A thrown value is an error object with a name and a message. An error object
  without a message of its own reads the empty string (\<^verbatim>\<open>new Error().message === ''\<close>),
  so an absent message is the empty string.
\<close>

record js_error =
  err_name :: string
  err_message :: string

text \<open>\<^verbatim>\<open>new Error(msg)\<close>\<close>

definition Error :: "string \<Rightarrow> js_error" where
  "Error msg = \<lparr>err_name = ''Error'', err_message = msg\<rparr>"

text \<open>Line 31: \<^verbatim>\<open>new Error(`HTTP ${res.status}: ${txt}`)\<close>\<close>

definition HttpError :: "nat \<Rightarrow> string \<Rightarrow> js_error" where
  "HttpError code txt = Error (''HTTP '' @ string_of_nat code @ '': '' @ txt)"

text \<open>
  The rejection of a \<^verbatim>\<open>fetch\<close> whose signal was aborted by \<^verbatim>\<open>controller.abort()\<close> with
  no reason: a \<^verbatim>\<open>DOMException\<close> named \<^verbatim>\<open>AbortError\<close>, with the message Node.js gives it.
\<close>

definition AbortError :: js_error where
  "AbortError = \<lparr>err_name = ''AbortError'', err_message = ''This operation was aborted''\<rparr>"

text \<open>
  A response as the code reads it: \<^verbatim>\<open>res.status\<close>; the outcome of \<^verbatim>\<open>res.text()\<close> (\<open>None\<close>
  when that promise rejects); the outcome of \<^verbatim>\<open>res.json()\<close> (\<open>None\<close> when that promise
  rejects, that is when the body cannot be read or parsed). Every awaited promise
  settles.
\<close>

record response =
  status :: nat
  body_text :: "string option"
  body_json :: "js option"

text \<open>\<^verbatim>\<open>res.ok\<close>\<close>

definition res_ok :: "response \<Rightarrow> bool" where
  "res_ok res = (200 \<le> status res \<and> status res \<le> 299)"

text \<open>
  What happens to one \<^verbatim>\<open>fetch\<close> raced against the timer of line 25: the response arrives
  first, the request fails first (a network error), or the timer fires first, that is
  no response has arrived within \<^verbatim>\<open>cfg.timeoutMs\<close>.
\<close>

datatype fetch_outcome = Responded response | Rejected js_error | TimerFired

text \<open>
  The effects of a call on the outside, in order: arming the timer with its delay, the
  network request with its URL and \<^verbatim>\<open>method\<close> option (\<open>None\<close> for \<^verbatim>\<open>options = {}\<close>),
  the abort of the in-flight request, and \<^verbatim>\<open>clearTimeout\<close>.
\<close>

datatype event =
    SetTimeout js_number
  | Fetch string "string option"
  | Abort
  | ClearTimeout

section \<open>The service\<close>

text \<open>
  The effective configuration as the operations read it: \<^verbatim>\<open>cfg.apiUrl\<close> a string,
  \<^verbatim>\<open>cfg.timeoutMs\<close> and \<^verbatim>\<open>cfg.cacheTtlMs\<close> numbers.
\<close>

record cfg =
  apiUrl :: string
  timeoutMs :: js_number
  cacheTtlMs :: js_number

text \<open>The cache slot of line 21: \<^verbatim>\<open>{ value, expiresAt }\<close>.\<close>

record cache =
  value' :: js
  expiresAt :: js_number

definition initial_cache :: cache where
  "initial_cache = \<lparr>value' = JNull, expiresAt = Num 0\<rparr>"

text \<open>
  \<^verbatim>\<open>fetchWithTimeout(url, options)\<close>, lines 23 to 37. The result is the value the
  promise settles with (\<open>Inl\<close> a rejection) and the effects in order. The
  \<^verbatim>\<open>finally\<close> block clears the timer on every path; the success paths have cleared it
  once already at line 28.
\<close>

definition fetchWithTimeout ::
  "cfg \<Rightarrow> string \<Rightarrow> string option \<Rightarrow> fetch_outcome \<Rightarrow> (js_error + js) \<times> event list" where
  "fetchWithTimeout c url opts outcome =
     (case outcome of
        TimerFired \<Rightarrow>
          (Inl AbortError, [SetTimeout (timeoutMs c), Fetch url opts, Abort, ClearTimeout])
      | Rejected err \<Rightarrow>
          (Inl err, [SetTimeout (timeoutMs c), Fetch url opts, ClearTimeout])
      | Responded res \<Rightarrow>
          (if \<not> res_ok res then
             (let txt = (case body_text res of Some t \<Rightarrow> t | None \<Rightarrow> '''')
              in (Inl (HttpError (status res) txt),
                  [SetTimeout (timeoutMs c), Fetch url opts, ClearTimeout, ClearTimeout]))
           else
             (Inr (case body_json res of Some d \<Rightarrow> d | None \<Rightarrow> JObj []),
              [SetTimeout (timeoutMs c), Fetch url opts, ClearTimeout, ClearTimeout])))"

text \<open>
  The property read \<^verbatim>\<open>data.message\<close>. Only an object parsed from JSON can have the
  property; on every other value that has properties it is \<^verbatim>\<open>undefined\<close>. The read
  throws on \<^verbatim>\<open>null\<close> and \<^verbatim>\<open>undefined\<close>; line 46 reads it behind \<^verbatim>\<open>data &&\<close>, so only
  on truthy values, which are neither.
\<close>

fun message_prop :: "js \<Rightarrow> js" where
  "message_prop (JObj kvs) = (case map_of kvs ''message'' of Some v \<Rightarrow> v | None \<Rightarrow> JUndefined)"
| "message_prop d = JUndefined"

text \<open>Line 46: \<^verbatim>\<open>(data && data.message) || 'Welcome'\<close>.\<close>

definition extract_message :: "js \<Rightarrow> js" where
  "extract_message data =
     (let m = (if truthy data then message_prop data else data)
      in if truthy m then m else JStr ''Welcome'')"

text \<open>
  \<^verbatim>\<open>getWelcomeMessage(force = false)\<close>, lines 39 to 49. The arguments after \<open>force\<close>
  are what the call meets: the value of \<^verbatim>\<open>Date.now()\<close>, what would happen to the
  request, and the cache slot. The result is the settled value, the cache slot
  afterwards and the effects.
\<close>

definition getWelcomeMessage ::
  "cfg \<Rightarrow> js \<Rightarrow> int \<Rightarrow> fetch_outcome \<Rightarrow> cache \<Rightarrow> (js_error + js) \<times> cache \<times> event list" where
  "getWelcomeMessage c force0 now outcome slot =
     (let force = (if force0 = JUndefined then JBool False else force0) in
      if \<not> truthy force \<and> truthy (value' slot) \<and> num_gt (expiresAt slot) (Num (of_int now))
      then (Inr (value' slot), slot, [])
      else
        (case fetchWithTimeout c (apiUrl c) None outcome of
           (Inl err, evs) \<Rightarrow> (Inl err, slot, evs)
         | (Inr data, evs) \<Rightarrow>
             (let message = extract_message data
              in (Inr message,
                  \<lparr>value' = message, expiresAt = num_add (Num (of_int now)) (cacheTtlMs c)\<rparr>,
                  evs))))"

text \<open>\<^verbatim>\<open>healthCheck()\<close>, lines 51 to 60: the \<^verbatim>\<open>try\<close> and its \<^verbatim>\<open>catch\<close>.\<close>

record health =
  ok :: bool
  info :: string
  endpoint :: string

definition healthCheck ::
  "cfg \<Rightarrow> fetch_outcome \<Rightarrow> cache \<Rightarrow> (js_error + health) \<times> cache \<times> event list" where
  "healthCheck c outcome slot =
     (case fetchWithTimeout c (apiUrl c) (Some ''HEAD'') outcome of
        (Inr res, evs) \<Rightarrow> (Inr \<lparr>ok = True, info = ''up'', endpoint = apiUrl c\<rparr>, slot, evs)
      | (Inl err, evs) \<Rightarrow>
          (Inr \<lparr>ok = False,
                info = (if err_message err \<noteq> [] then err_message err else ''unreachable''),
                endpoint = apiUrl c\<rparr>, slot, evs))"

text \<open>\<^verbatim>\<open>clearCache()\<close>, lines 62 to 64.\<close>

definition clearCache :: "cache \<Rightarrow> cache" where
  "clearCache slot = \<lparr>value' = JNull, expiresAt = Num 0\<rparr>"

subsection \<open>Sequences of calls on one instance\<close>

datatype call =
    GetWelcomeMessage js int fetch_outcome
  | HealthCheck fetch_outcome
  | ClearCache

fun step :: "cfg \<Rightarrow> cache \<Rightarrow> call \<Rightarrow> cache" where
  "step c slot (GetWelcomeMessage force now outcome) =
     fst (snd (getWelcomeMessage c force now outcome slot))"
| "step c slot (HealthCheck outcome) = fst (snd (healthCheck c outcome slot))"
| "step c slot ClearCache = clearCache slot"

text \<open>The cache slot of an instance after a sequence of calls, from its construction.\<close>

definition run :: "cfg \<Rightarrow> call list \<Rightarrow> cache" where
  "run c calls = foldl (step c) initial_cache calls"

subsection \<open>Construction\<close>

text \<open>
  An object as a map from property names to values. \<^verbatim>\<open>process.env\<close> maps names to
  strings. \<^verbatim>\<open>Number\<close> applied to a string is the language's own conversion, taken as
  the parameter \<open>to_number\<close>; \<^verbatim>\<open>Number(undefined)\<close> is \<^verbatim>\<open>NaN\<close>.
\<close>

type_synonym js_object = "string \<Rightarrow> js option"

definition Number_env :: "(string \<Rightarrow> js_number) \<Rightarrow> string option \<Rightarrow> js_number" where
  "Number_env to_number v = (case v of None \<Rightarrow> NaN | Some s \<Rightarrow> to_number s)"

text \<open>\<^verbatim>\<open>DEFAULT_CONFIG\<close>, lines 13 to 17.\<close>

definition DEFAULT_CONFIG :: "(string \<Rightarrow> js_number) \<Rightarrow> (string \<Rightarrow> string option) \<Rightarrow> js_object" where
  "DEFAULT_CONFIG to_number env =
     [''apiUrl'' \<mapsto>
        (case env ''WELCOME_API_URL'' of
           Some s \<Rightarrow> if s \<noteq> [] then JStr s else JStr ''https://api.example.com/welcome''
         | None \<Rightarrow> JStr ''https://api.example.com/welcome''),
      ''timeoutMs'' \<mapsto>
        (let n = Number_env to_number (env ''SERVICE_TIMEOUT_MS'')
         in if num_truthy n then JNum n else JNum (Num 5000)),
      ''cacheTtlMs'' \<mapsto>
        (let n = Number_env to_number (env ''CACHE_TTL_MS'')
         in if num_truthy n then JNum n else JNum (Num 30000))]"

text \<open>
  \<^verbatim>\<open>initServices(config = {})\<close>, lines 19 to 21: the effective configuration
  \<^verbatim>\<open>{ ...DEFAULT_CONFIG, ...config }\<close> and the empty cache slot. \<open>None\<close> is the omitted
  argument.
\<close>

definition initServices ::
  "(string \<Rightarrow> js_number) \<Rightarrow> (string \<Rightarrow> string option) \<Rightarrow> js_object option \<Rightarrow> js_object \<times> cache" where
  "initServices to_number env config0 =
     (let config = (case config0 of None \<Rightarrow> Map.empty | Some o1 \<Rightarrow> o1)
      in (DEFAULT_CONFIG to_number env ++ config, initial_cache))"

section \<open>Notions of the specification\<close>

text \<open>
  The invariant of the cache slot: it is empty as construction and \<^verbatim>\<open>clearCache\<close> leave
  it, or it holds a truthy value.
\<close>

definition cache_inv :: "cache \<Rightarrow> bool" where
  "cache_inv slot = ((value' slot = JNull \<and> expiresAt slot = Num 0) \<or> truthy (value' slot))"

text \<open>
  The \<^verbatim>\<open>message\<close> field of a parsed body: \<open>None\<close> when the body is not an object or
  the object has no such field.
\<close>

definition message_field :: "js \<Rightarrow> js option" where
  "message_field d = (case d of JObj kvs \<Rightarrow> map_of kvs ''message'' | _ \<Rightarrow> None)"

text \<open>
  The configuration an instance gets when it is constructed with no argument in an
  environment that sets none of the three variables.
\<close>

definition default_cfg :: cfg where
  "default_cfg =
     \<lparr>apiUrl = ''https://api.example.com/welcome'', timeoutMs = Num 5000, cacheTtlMs = Num 30000\<rparr>"

text \<open>
  The effective configuration object read at the types the operations use; \<open>None\<close>
  when a field is missing or holds a value of another type.
\<close>

definition cfg_of :: "js_object \<Rightarrow> cfg option" where
  "cfg_of obj =
     (case (obj ''apiUrl'', obj ''timeoutMs'', obj ''cacheTtlMs'') of
        (Some (JStr u), Some (JNum t), Some (JNum l)) \<Rightarrow>
          Some \<lparr>apiUrl = u, timeoutMs = t, cacheTtlMs = l\<rparr>
      | _ \<Rightarrow> None)"

section \<open>Lemmas about the addition of doubles\<close>

text \<open>
  Integers below \<open>2\<close> to the power 53 in absolute value are doubles, and their sum is
  exact when it is below that bound too: a time in milliseconds plus a TTL in
  milliseconds is the exact sum.
\<close>

lemma bit_length_bitlen: "bit_length n = bitlen n"
proof (induction n rule: bit_length.induct)
  case (1 n)
  show ?case
  proof (cases "n \<le> 0")
    case True
    then show ?thesis by (subst bit_length.simps, subst compute_bitlen) simp
  next
    case False
    with "1.IH" show ?thesis by (subst bit_length.simps, subst compute_bitlen) simp
  qed
qed

lemma bit_length_bounds:
  assumes "0 < n"
  shows "2 ^ nat (bit_length n - 1) \<le> n \<and> n < 2 ^ nat (bit_length n)"
  using bitlen_bounds [OF assms] by (simp add: bit_length_bitlen)

lemma bit_length_pos: "0 < n \<Longrightarrow> 1 \<le> bit_length n"
  by (subst bit_length.simps) (simp add: bit_length_bitlen bitlen_nonneg)

lemma round_half_even_of_int: "round_half_even (of_int k) = k"
  by (simp add: round_half_even_def)

lemma pow2_nonpos: "k \<le> 0 \<Longrightarrow> pow2 k = 1 / 2 ^ nat (- k)"
  by (cases "k = 0") (simp_all add: pow2_def)

lemma round_pos_safe_int:
  assumes "0 < n" and "n < 2 ^ 53"
  shows "round_pos (of_int n) = Num (of_int n)"
proof -
  define e where "e = bit_length n - 1"
  from bit_length_bounds [OF assms(1)] have lo: "2 ^ nat e \<le> n"
    by (simp add: e_def)
  from bit_length_pos [OF assms(1)] have e0: "0 \<le> e" by (simp add: e_def)
  from lo assms(2) have p: "(2::int) ^ nat e < 2 ^ 53" by linarith
  have "nat e < 53" by (rule power_less_imp_less_exp [OF _ p]) simp
  with e0 have e52: "e \<le> 52" by linarith
  from assms(1) have fl: "floor_log2 (of_int n) = e"
    by (simp add: floor_log2_def e_def)
  define d where "d = nat (52 - e)"
  have u: "pow2 (e - 52) = 1 / 2 ^ d"
    using e52 pow2_nonpos [of "e - 52"] by (simp add: d_def)
  have "(of_int n :: rat) / pow2 (e - 52) = of_int (n * 2 ^ d)" by (simp add: u)
  then have "round_half_even (of_int n / pow2 (e - 52)) = n * 2 ^ d"
    by (simp only: round_half_even_of_int)
  then have y: "of_int (round_half_even (of_int n / pow2 (e - 52))) * pow2 (e - 52)
      = (of_int n :: rat)"
    by (simp add: u)
  have big: "\<not> pow2 1024 \<le> (of_int n :: rat)"
  proof -
    have "(of_int n :: rat) < of_int (2 ^ 53)" using assms(2) by (simp only: of_int_less_iff)
    also have "\<dots> \<le> pow2 1024" by (simp add: pow2_def)
    finally show ?thesis by simp
  qed
  have m: "max e (- 1022) = e" using e0 by simp
  show ?thesis
    by (simp only: round_pos_def Let_def fl m y big if_False)
qed

lemma round_double_safe_int:
  assumes "\<bar>n\<bar> < 2 ^ 53"
  shows "round_double (of_int n) = Num (of_int n)"
proof -
  consider "n = 0" | "0 < n" | "n < 0" by linarith
  then show ?thesis
  proof cases
    case 1
    then show ?thesis by (simp add: round_double_def)
  next
    case 2
    with assms round_pos_safe_int [of n] show ?thesis by (simp add: round_double_def)
  next
    case 3
    with assms round_pos_safe_int [of "- n"] show ?thesis by (simp add: round_double_def)
  qed
qed

lemma num_add_safe_int:
  assumes "\<bar>a\<bar> < 2 ^ 53" and "\<bar>b\<bar> < 2 ^ 53" and "\<bar>a + b\<bar> < 2 ^ 53"
  shows "num_add (Num (of_int a)) (Num (of_int b)) = Num (of_int (a + b))"
proof -
  have ra: "round_double (of_int a) = Num (of_int a)"
    using assms(1) by (rule round_double_safe_int)
  have rb: "round_double (of_int b) = Num (of_int b)"
    using assms(2) by (rule round_double_safe_int)
  have "num_add (Num (of_int a)) (Num (of_int b)) = round_double (of_int a + of_int b)"
    by (simp add: num_add_def ra rb)
  also have "\<dots> = round_double (of_int (a + b))" by simp
  also have "\<dots> = Num (of_int (a + b))" using assms(3) by (rule round_double_safe_int)
  finally show ?thesis .
qed

lemma num_add_1000_30000 [simp]: "num_add (Num 1000) (Num 30000) = Num 31000"
  using num_add_safe_int [of 1000 30000] by simp

lemma num_add_40000_30000 [simp]: "num_add (Num 40000) (Num 30000) = Num 70000"
  using num_add_safe_int [of 40000 30000] by simp

text \<open>
  Beyond that the sum is rounded: at a time of 1700000000000 ms the doubles are
  \<open>1 / 4096\<close> apart, and a TTL of \<open>1 / 16384\<close> ms is lost in the sum.
\<close>

lemma round_pos_step:
  assumes "max (floor_log2 x) (- 1022) = e"
    and "round_half_even (x / pow2 (e - 52)) = k"
    and "of_int k * pow2 (e - 52) = y"
    and "y < pow2 1024"
  shows "round_pos x = Num y"
proof -
  from assms(4) have big: "\<not> pow2 1024 \<le> y" by simp
  show ?thesis
    by (simp only: round_pos_def Let_def assms(1) assms(2) assms(3) big if_False)
qed

lemma round_half_even_down:
  assumes "of_int f \<le> m" and "m < of_int f + 1 / 2"
  shows "round_half_even m = f"
proof -
  from assms have "\<lfloor>m\<rfloor> = f" by (simp add: floor_eq_iff)
  with assms(2) show ?thesis by (simp add: round_half_even_def)
qed

lemma round_double_example: "round_double (1 / 16384) = Num (1 / 16384)"
proof -
  have b: "bit_length 16383 = 14" by (simp add: bit_length.simps)
  have f: "max (floor_log2 (1 / 16384)) (- 1022) = - 14" by (simp add: floor_log2_def b)
  have r: "round_half_even ((1 / 16384) / pow2 (- 14 - 52)) = 4503599627370496"
    by (simp add: pow2_def round_half_even_def)
  have y: "of_int 4503599627370496 * pow2 (- 14 - 52) = (1 / 16384 :: rat)"
    by (simp add: pow2_def)
  have l: "(1 / 16384 :: rat) < pow2 1024" by (simp add: pow2_def)
  have "round_pos (1 / 16384) = Num (1 / 16384)"
    using f r y l by (rule round_pos_step)
  then show ?thesis by (simp add: round_double_def)
qed

lemma num_add_rounds: "num_add (Num 1700000000000) (Num (1 / 16384)) = Num 1700000000000"
proof -
  have a: "round_double 1700000000000 = Num 1700000000000"
    using round_double_safe_int [of 1700000000000] by simp
  have b: "bit_length 1700000000000 = 41" by (simp add: bit_length.simps)
  have "\<lfloor>1700000000000 + 1 / 16384 :: rat\<rfloor> = 1700000000000"
    by (simp add: floor_eq_iff)
  then have f: "max (floor_log2 (1700000000000 + 1 / 16384)) (- 1022) = 40"
    by (simp only: floor_log2_def b) simp
  have r: "round_half_even ((1700000000000 + 1 / 16384) / pow2 (40 - 52)) = 6963200000000000"
    by (rule round_half_even_down) (simp_all add: pow2_def)
  have y: "of_int 6963200000000000 * pow2 (40 - 52) = (1700000000000 :: rat)"
    by (simp add: pow2_def)
  have l: "(1700000000000 :: rat) < pow2 1024" by (simp add: pow2_def)
  have "round_pos (1700000000000 + 1 / 16384) = Num 1700000000000"
    using f r y l by (rule round_pos_step)
  then have "round_double (1700000000000 + 1 / 16384) = Num 1700000000000"
    by (simp add: round_double_def)
  then show ?thesis by (simp add: num_add_def a round_double_example)
qed

text \<open>
  The rounding in general: \<open>floor_log2\<close> is the exponent, the rounded value is within
  half a unit in the last place, and it is a double again.
\<close>

lemma pow2_nonneg: "0 \<le> k \<Longrightarrow> pow2 k = 2 ^ nat k"
  by (simp add: pow2_def)

lemma pow2_pos: "0 < pow2 k"
  by (simp add: pow2_def)

lemma floor_log2_bounds:
  assumes "0 < x"
  shows "pow2 (floor_log2 x) \<le> x \<and> x < pow2 (floor_log2 x + 1)"
proof (cases "1 \<le> x")
  case True
  define n where "n = \<lfloor>x\<rfloor>"
  from True have n1: "0 < n" by (simp add: n_def)
  define e where "e = bit_length n - 1"
  from bit_length_pos [OF n1] have e0: "0 \<le> e" by (simp add: e_def)
  from bit_length_bounds [OF n1] have lo: "2 ^ nat e \<le> n" and hi: "n < 2 ^ nat (e + 1)"
    by (simp_all add: e_def)
  have fl: "floor_log2 x = e" using True by (simp add: floor_log2_def e_def n_def)
  have "(of_int (2 ^ nat e) :: rat) \<le> of_int n" using lo by (simp only: of_int_le_iff)
  also have "\<dots> \<le> x" unfolding n_def by linarith
  finally have a: "pow2 e \<le> x" using e0 by (simp add: pow2_nonneg)
  from hi have "n + 1 \<le> 2 ^ nat (e + 1)" by simp
  then have "(of_int (n + 1) :: rat) \<le> of_int (2 ^ nat (e + 1))" by (simp only: of_int_le_iff)
  moreover have "x < of_int (n + 1)" unfolding n_def by linarith
  ultimately have "x < of_int (2 ^ nat (e + 1))" by simp
  then have b: "x < pow2 (e + 1)" using e0 by (simp add: pow2_nonneg)
  from a b fl show ?thesis by simp
next
  case False
  with assms have y1: "1 < 1 / x" by simp
  define c where "c = \<lceil>1 / x\<rceil>"
  from y1 have c2: "0 < c - 1" by (simp add: c_def less_ceiling_iff)
  define k where "k = bit_length (c - 1)"
  from bit_length_pos [OF c2] have k1: "1 \<le> k" by (simp add: k_def)
  from bit_length_bounds [OF c2] have lo: "2 ^ nat (k - 1) \<le> c - 1" and hi: "c - 1 < 2 ^ nat k"
    by (simp_all add: k_def)
  have fl: "floor_log2 x = - k" using False by (simp add: floor_log2_def k_def c_def)
  from hi have "c \<le> 2 ^ nat k" by simp
  then have "(of_int c :: rat) \<le> of_int (2 ^ nat k)" by (simp only: of_int_le_iff)
  then have cu: "(of_int c :: rat) \<le> 2 ^ nat k" by simp
  have "1 / x \<le> of_int c" unfolding c_def by linarith
  with cu have "1 / x \<le> 2 ^ nat k" by linarith
  with assms have "1 \<le> 2 ^ nat k * x" by (simp add: field_simps)
  then have "1 / 2 ^ nat k \<le> x" by (simp add: field_simps)
  then have a: "pow2 (- k) \<le> x" using k1 pow2_nonpos [of "- k"] by simp
  have "(of_int (2 ^ nat (k - 1)) :: rat) \<le> of_int (c - 1)" using lo by (simp only: of_int_le_iff)
  then have cl: "(2 ^ nat (k - 1) :: rat) \<le> of_int (c - 1)" by simp
  have "of_int (c - 1) < 1 / x" unfolding c_def by linarith
  with cl have "2 ^ nat (k - 1) < 1 / x" by linarith
  with assms have "2 ^ nat (k - 1) * x < 1" by (simp add: field_simps)
  then have "x < 1 / 2 ^ nat (k - 1)" by (simp add: field_simps)
  then have b: "x < pow2 (- k + 1)" using k1 pow2_nonpos [of "- k + 1"] by simp
  from a b fl show ?thesis by simp
qed

lemma round_half_even_near: "\<bar>of_int (round_half_even m) - m\<bar> \<le> 1 / 2"
proof -
  have "of_int \<lfloor>m\<rfloor> \<le> m" and "m < of_int \<lfloor>m\<rfloor> + 1" by linarith+
  then show ?thesis by (auto simp add: round_half_even_def Let_def)
qed

lemma round_pos_near:
  assumes "round_pos x = Num y"
  shows "\<bar>y - x\<bar> \<le> pow2 (max (floor_log2 x) (- 1022) - 52) / 2"
proof -
  define u where "u = pow2 (max (floor_log2 x) (- 1022) - 52)"
  define k where "k = round_half_even (x / u)"
  have up: "0 < u" by (simp add: u_def pow2_pos)
  from assms have y: "y = of_int k * u"
    by (simp add: round_pos_def Let_def u_def k_def split: if_splits)
  have "\<bar>of_int k - x / u\<bar> \<le> 1 / 2" unfolding k_def by (rule round_half_even_near)
  then have "\<bar>of_int k - x / u\<bar> * u \<le> 1 / 2 * u" using up by (simp only: mult_le_cancel_right_pos)
  moreover have "\<bar>of_int k - x / u\<bar> * u = \<bar>of_int k * u - x\<bar>"
  proof -
    have "\<bar>of_int k - x / u\<bar> * u = \<bar>(of_int k - x / u) * u\<bar>"
      using up by (simp add: abs_mult)
    also have "(of_int k - x / u) * u = of_int k * u - x" using up by (simp add: field_simps)
    finally show ?thesis .
  qed
  ultimately show ?thesis by (simp add: y u_def)
qed

lemma pow2_powi: "pow2 k = 2 powi k"
  by (simp add: pow2_def power_int_def power_one_over inverse_eq_divide)

lemma pow2_add: "pow2 (a + b) = pow2 a * pow2 b"
  by (simp add: pow2_powi power_int_add)

lemma pow2_less: "a < b \<Longrightarrow> pow2 a < pow2 b"
  by (simp add: pow2_powi power_int_strict_increasing)

lemma pow2_le: "a \<le> b \<Longrightarrow> pow2 a \<le> pow2 b"
  by (simp add: pow2_powi power_int_increasing)

lemma pow2_less_exp: "pow2 a < pow2 b \<Longrightarrow> a < b"
  using pow2_le [of b a] by (cases "a < b") simp_all

lemma pow2_53: "pow2 (a + 1) = of_int (2 ^ 53) * pow2 (a - 52)"
proof -
  have "a + 1 = 53 + (a - 52)" by simp
  then have "pow2 (a + 1) = pow2 (53 + (a - 52))" by (rule arg_cong)
  also have "\<dots> = pow2 53 * pow2 (a - 52)" by (rule pow2_add)
  also have "pow2 53 = of_int (2 ^ 53)" by (simp add: pow2_def)
  finally show ?thesis .
qed

lemma pow2_52: "pow2 a = of_int (2 ^ 52) * pow2 (a - 52)"
proof -
  have "a = 52 + (a - 52)" by simp
  then have "pow2 a = pow2 (52 + (a - 52))" by (rule arg_cong)
  also have "\<dots> = pow2 52 * pow2 (a - 52)" by (rule pow2_add)
  also have "pow2 52 = of_int (2 ^ 52)" by (simp add: pow2_def)
  finally show ?thesis .
qed

lemma floor_log2_unique:
  assumes "0 < y" and "pow2 e \<le> y" and "y < pow2 (e + 1)"
  shows "floor_log2 y = e"
proof -
  from floor_log2_bounds [OF assms(1)]
  have lo: "pow2 (floor_log2 y) \<le> y" and hi: "y < pow2 (floor_log2 y + 1)" by simp_all
  from assms(2) hi have "pow2 e < pow2 (floor_log2 y + 1)" by simp
  then have "e < floor_log2 y + 1" by (rule pow2_less_exp)
  moreover from lo assms(3) have "pow2 (floor_log2 y) < pow2 (e + 1)" by simp
  then have "floor_log2 y < e + 1" by (rule pow2_less_exp)
  ultimately show ?thesis by simp
qed

lemma round_half_even_le:
  assumes "m \<le> of_int N"
  shows "round_half_even m \<le> N"
proof -
  from round_half_even_near [of m] assms
  have "(of_int (round_half_even m) :: rat) < of_int N + 1" by linarith
  then have "(of_int (round_half_even m) :: rat) < of_int (N + 1)" by simp
  then have "round_half_even m < N + 1" by (simp only: of_int_less_iff)
  then show ?thesis by simp
qed

lemma round_half_even_ge:
  assumes "of_int N \<le> m"
  shows "N \<le> round_half_even m"
proof -
  from round_half_even_near [of m] assms
  have "(of_int N :: rat) - 1 < of_int (round_half_even m)" by linarith
  then have "(of_int (N - 1) :: rat) < of_int (round_half_even m)" by simp
  then have "N - 1 < round_half_even m" by (simp only: of_int_less_iff)
  then show ?thesis by simp
qed

lemma round_pos_fixed:
  assumes "0 < x" and "round_pos x = Num y"
  shows "round_double y = Num y"
proof -
  define e where "e = max (floor_log2 x) (- 1022)"
  define u where "u = pow2 (e - 52)"
  define k where "k = round_half_even (x / u)"
  have up: "0 < u" by (simp add: u_def pow2_pos)
  from assms(2) have y: "y = of_int k * u" and fin: "\<not> pow2 1024 \<le> y"
    by (simp_all add: round_pos_def Let_def e_def u_def k_def split: if_splits)
  have e_lo: "- 1022 \<le> e" by (simp add: e_def)
  from floor_log2_bounds [OF assms(1)]
  have xlo: "pow2 (floor_log2 x) \<le> x" and xhi: "x < pow2 (floor_log2 x + 1)" by simp_all
  have "pow2 (floor_log2 x + 1) \<le> pow2 (e + 1)" by (rule pow2_le) (simp add: e_def)
  with xhi have xe: "x < pow2 (e + 1)" by simp
  have split53: "pow2 (e + 1) = of_int (2 ^ 53) * u"
    unfolding u_def by (rule pow2_53)
  have split52: "pow2 e = of_int (2 ^ 52) * u"
    unfolding u_def by (rule pow2_52)
  from xe up have "x / u < of_int (2 ^ 53)"
    by (simp only: split53 pos_divide_less_eq)
  then have "x / u \<le> of_int (2 ^ 53)" by simp
  then have k_hi: "k \<le> 2 ^ 53" unfolding k_def by (rule round_half_even_le)
  from assms(1) up have "of_int 0 \<le> x / u" by simp
  then have k_lo: "0 \<le> k" unfolding k_def by (rule round_half_even_ge)
  show ?thesis
  proof (cases "k = 0")
    case True
    then show ?thesis by (simp add: y round_double_def)
  next
    case False
    with k_lo have kp: "0 < k" by simp
    with up have yp: "0 < y" by (simp add: y)
    have "round_pos y = Num y"
    proof (cases "k = 2 ^ 53")
      case True
      then have yv: "y = pow2 (e + 1)" by (simp add: y split53)
      have "pow2 (e + 1) < pow2 (e + 1 + 1)" by (rule pow2_less) simp
      with yv yp have fl: "floor_log2 y = e + 1" by (intro floor_log2_unique) simp_all
      from e_lo have m: "max (e + 1) (- 1022) = e + 1" by simp
      have u2: "pow2 (e + 1) = of_int (2 ^ 52) * pow2 (e + 1 - 52)"
        by (rule pow2_52)
      have "pow2 (e + 1) / pow2 (e + 1 - 52) = of_int (2 ^ 52)"
        using pow2_pos [of "e + 1 - 52"] by (simp only: u2 nonzero_mult_div_cancel_right)
      then have r: "round_half_even (y / pow2 (e + 1 - 52)) = 2 ^ 52"
        by (simp only: yv round_half_even_of_int)
      have v: "of_int (2 ^ 52) * pow2 (e + 1 - 52) = y" by (simp only: yv u2)
      from fin have l: "y < pow2 1024" by simp
      from e_lo fl have em: "max (floor_log2 y) (- 1022) = e + 1" by simp
      from em r v l show ?thesis by (rule round_pos_step)
    next
      case False
      with k_hi have k53: "k < 2 ^ 53" by simp
      then have "(of_int k :: rat) < of_int (2 ^ 53)" by (simp only: of_int_less_iff)
      with up have "of_int k * u < of_int (2 ^ 53) * u" by (simp only: mult_less_cancel_right_pos)
      then have yhi: "y < pow2 (e + 1)" by (simp only: y split53)
      from floor_log2_bounds [OF yp]
      have ylo': "pow2 (floor_log2 y) \<le> y" and yhi': "y < pow2 (floor_log2 y + 1)" by simp_all
      from ylo' yhi have "pow2 (floor_log2 y) < pow2 (e + 1)" by simp
      then have f_hi: "floor_log2 y \<le> e" using pow2_less_exp [of "floor_log2 y" "e + 1"] by simp
      have m: "max (floor_log2 y) (- 1022) = e"
      proof (cases "- 1022 \<le> floor_log2 x")
        case True
        then have ee: "e = floor_log2 x" by (simp add: e_def)
        with xlo have "pow2 e \<le> x" by simp
        with up have "of_int (2 ^ 52) \<le> x / u" by (simp only: split52 pos_le_divide_eq)
        then have "2 ^ 52 \<le> k" unfolding k_def by (rule round_half_even_ge)
        then have "(of_int (2 ^ 52) :: rat) \<le> of_int k" by (simp only: of_int_le_iff)
        with up have "of_int (2 ^ 52) * u \<le> of_int k * u" by (simp only: mult_le_cancel_right_pos)
        then have "pow2 e \<le> y" by (simp only: y split52)
        with yhi' have "pow2 e < pow2 (floor_log2 y + 1)" by simp
        then have "e \<le> floor_log2 y" using pow2_less_exp [of e "floor_log2 y + 1"] by simp
        with f_hi e_lo show ?thesis by simp
      next
        case False
        then have "e = - 1022" by (simp add: e_def)
        with f_hi show ?thesis by simp
      qed
      have "y / u = of_int k" using up by (simp add: y)
      then have "round_half_even (y / u) = k" by (simp only: round_half_even_of_int)
      then have r: "round_half_even (y / pow2 (e - 52)) = k" by (simp only: u_def)
      have v: "of_int k * pow2 (e - 52) = y" by (simp only: y u_def)
      from fin have l: "y < pow2 1024" by simp
      from m r v l show ?thesis by (rule round_pos_step)
    qed
    with yp show ?thesis by (simp add: round_double_def)
  qed
qed

lemma num_neg_num_neg: "num_neg (num_neg x) = x"
  by (cases x) simp_all

lemma round_double_neg: "round_double (- x) = num_neg (round_double x)"
proof -
  consider "x = 0" | "0 < x" | "x < 0" by linarith
  then show ?thesis
    by cases (simp_all add: round_double_def num_neg_num_neg)
qed

lemma round_double_fixed:
  assumes "round_double x = Num y"
  shows "round_double y = Num y"
proof -
  consider "x = 0" | "0 < x" | "x < 0" by linarith
  then show ?thesis
  proof cases
    case 1
    with assms show ?thesis by (simp add: round_double_def)
  next
    case 2
    with assms have "round_pos x = Num y" by (simp add: round_double_def)
    with 2 show ?thesis by (rule round_pos_fixed)
  next
    case 3
    then have p: "0 < - x" by simp
    from 3 assms have "num_neg (round_pos (- x)) = Num y" by (simp add: round_double_def)
    then have "round_pos (- x) = Num (- y)" by (cases "round_pos (- x)") simp_all
    with p have "round_double (- y) = Num (- y)" by (rule round_pos_fixed)
    with round_double_neg [of "- y"] show ?thesis by simp
  qed
qed

lemma to_double_round_double: "to_double (round_double x) = round_double x"
  by (cases "round_double x") (simp_all add: round_double_fixed)

lemma to_double_idem: "to_double (to_double x) = to_double x"
  by (cases x) (simp_all add: to_double_round_double)

lemma add_doubles_is_double:
  assumes "to_double x = x" and "to_double y = y"
  shows "to_double (add_doubles x y) = add_doubles x y"
  using assms by (cases x; cases y) (simp_all add: to_double_round_double)

lemma num_add_is_double: "to_double (num_add x y) = num_add x y"
  unfolding num_add_def by (rule add_doubles_is_double) (rule to_double_idem)+

lemma num_add_on_doubles:
  assumes "to_double x = x" and "to_double y = y"
  shows "num_add x y = add_doubles x y"
  by (simp add: num_add_def assms)

section \<open>Lemmas about the operations\<close>

lemma truthy_extract_message: "truthy (extract_message d)"
  by (simp add: extract_message_def Let_def)

lemma extract_message_default:
  assumes "\<forall>v. message_field d = Some v \<longrightarrow> \<not> truthy v"
  shows "extract_message d = JStr ''Welcome''"
proof (cases d)
  case (JObj kvs)
  show ?thesis
  proof (cases "map_of kvs ''message''")
    case None
    with JObj show ?thesis by (simp add: extract_message_def)
  next
    case (Some v)
    with JObj assms have "\<not> truthy v" by (simp add: message_field_def)
    with JObj Some show ?thesis by (simp add: extract_message_def)
  qed
qed (simp_all add: extract_message_def)

lemma extract_message_found:
  assumes "message_field d = Some v" and "truthy v"
  shows "extract_message d = v"
  using assms by (cases d) (simp_all add: message_field_def extract_message_def)

lemma fetch_in_events: "Fetch url opts \<in> set (snd (fetchWithTimeout c url opts outcome))"
  by (cases outcome) (simp_all add: fetchWithTimeout_def Let_def)

lemma getWelcomeMessage_hit:
  assumes "force = JBool False \<or> force = JUndefined"
    and "truthy (value' slot)"
    and "num_gt (expiresAt slot) (Num (of_int now))"
  shows "getWelcomeMessage c force now outcome slot = (Inr (value' slot), slot, [])"
  using assms by (auto simp add: getWelcomeMessage_def)

lemma getWelcomeMessage_fetched:
  assumes "getWelcomeMessage c force now outcome slot = (r, slot', evs)"
    and "Fetch (apiUrl c) None \<in> set evs"
  shows "(r, slot', evs) =
     (case fetchWithTimeout c (apiUrl c) None outcome of
        (Inl err, es) \<Rightarrow> (Inl err, slot, es)
      | (Inr data, es) \<Rightarrow>
          (Inr (extract_message data),
           \<lparr>value' = extract_message data,
            expiresAt = num_add (Num (of_int now)) (cacheTtlMs c)\<rparr>, es))"
proof -
  obtain res es where f: "fetchWithTimeout c (apiUrl c) None outcome = (res, es)"
    by (cases "fetchWithTimeout c (apiUrl c) None outcome")
  show ?thesis
  proof (cases res)
    case (Inl err)
    with assms f show ?thesis
      by (auto simp add: getWelcomeMessage_def Let_def split: if_splits)
  next
    case (Inr data)
    with assms f show ?thesis
      by (auto simp add: getWelcomeMessage_def Let_def split: if_splits)
  qed
qed

lemma cache_inv_getWelcomeMessage:
  assumes "cache_inv slot"
  shows "cache_inv (fst (snd (getWelcomeMessage c force now outcome slot)))"
proof -
  obtain res es where f: "fetchWithTimeout c (apiUrl c) None outcome = (res, es)"
    by (cases "fetchWithTimeout c (apiUrl c) None outcome")
  show ?thesis
  proof (cases res)
    case (Inl err)
    with assms f show ?thesis
      by (simp add: getWelcomeMessage_def Let_def)
  next
    case (Inr data)
    with assms f show ?thesis
      by (simp add: getWelcomeMessage_def Let_def cache_inv_def truthy_extract_message)
  qed
qed

lemma cache_inv_step: "cache_inv slot \<Longrightarrow> cache_inv (step c slot call)"
proof (cases call)
  case (GetWelcomeMessage force now outcome)
  assume "cache_inv slot"
  with GetWelcomeMessage show ?thesis by (simp add: cache_inv_getWelcomeMessage)
next
  case (HealthCheck outcome)
  assume "cache_inv slot"
  with HealthCheck show ?thesis
    by (simp add: healthCheck_def split: prod.splits sum.splits)
next
  case ClearCache
  then show ?thesis by (simp add: clearCache_def cache_inv_def)
qed

lemma cache_inv_foldl: "cache_inv slot \<Longrightarrow> cache_inv (foldl (step c) slot calls)"
  by (induction calls arbitrary: slot) (simp_all add: cache_inv_step)

lemma cache_inv_run: "cache_inv (run c calls)"
  unfolding run_def by (rule cache_inv_foldl) (simp add: cache_inv_def initial_cache_def)

lemma string_of_nat_503: "string_of_nat 503 = ''503''"
  by (simp add: string_of_nat.simps digit_char_def)

lemma string_of_nat_404: "string_of_nat 404 = ''404''"
  by (simp add: string_of_nat.simps digit_char_def)

lemma digit_char_inj: "a < 10 \<Longrightarrow> b < 10 \<Longrightarrow> digit_char a = digit_char b \<Longrightarrow> a = b"
proof -
  assume a: "a < 10" and b: "b < 10" and e: "digit_char a = digit_char b"
  have d: "distinct ''0123456789''" by simp
  have l: "length ''0123456789'' = 10" by simp
  from a b e show ?thesis
    using nth_eq_iff_index_eq [OF d, of a b] by (simp add: digit_char_def)
qed

lemma string_of_nat_nonempty: "string_of_nat n \<noteq> []"
  by (subst string_of_nat.simps) simp

lemma string_of_nat_inj: "string_of_nat m = string_of_nat n \<Longrightarrow> m = n"
proof (induction m arbitrary: n rule: string_of_nat.induct)
  case (1 m)
  show ?case
  proof (cases "m < 10")
    case True
    then have sm: "string_of_nat m = [digit_char m]" by (subst string_of_nat.simps) simp
    show ?thesis
    proof (cases "n < 10")
      case nlt: True
      then have "string_of_nat n = [digit_char n]" by (subst string_of_nat.simps) simp
      with sm "1.prems" True nlt show ?thesis by (simp add: digit_char_inj)
    next
      case False
      then have "string_of_nat n = string_of_nat (n div 10) @ [digit_char (n mod 10)]"
        by (subst string_of_nat.simps) simp
      with sm "1.prems" string_of_nat_nonempty [of "n div 10"] show ?thesis by simp
    qed
  next
    case False
    then have sm: "string_of_nat m = string_of_nat (m div 10) @ [digit_char (m mod 10)]"
      by (subst string_of_nat.simps) simp
    show ?thesis
    proof (cases "n < 10")
      case True
      then have "string_of_nat n = [digit_char n]" by (subst string_of_nat.simps) simp
      with sm "1.prems" string_of_nat_nonempty [of "m div 10"] show ?thesis by simp
    next
      case nge: False
      then have "string_of_nat n = string_of_nat (n div 10) @ [digit_char (n mod 10)]"
        by (subst string_of_nat.simps) simp
      with sm "1.prems" have q: "string_of_nat (m div 10) = string_of_nat (n div 10)"
        and d: "digit_char (m mod 10) = digit_char (n mod 10)" by simp_all
      from "1.IH" [OF False q] have "m div 10 = n div 10" .
      moreover from d have "m mod 10 = n mod 10" by (simp add: digit_char_inj)
      ultimately show ?thesis by (metis div_mult_mod_eq)
    qed
  qed
qed

lemma string_of_nat_digits: "set (string_of_nat n) \<subseteq> set ''0123456789''"
proof (induction n rule: string_of_nat.induct)
  case (1 n)
  have d: "\<And>k. k < 10 \<Longrightarrow> digit_char k \<in> set ''0123456789''"
    unfolding digit_char_def by (rule nth_mem) simp
  show ?case
  proof (cases "n < 10")
    case True
    then have "string_of_nat n = [digit_char n]" by (subst string_of_nat.simps) simp
    with True d [of n] show ?thesis by simp
  next
    case False
    then have "string_of_nat n = string_of_nat (n div 10) @ [digit_char (n mod 10)]"
      by (subst string_of_nat.simps) simp
    with "1.IH" [OF False] d [of "n mod 10"] show ?thesis by simp
  qed
qed

lemma HttpError_inj:
  assumes "HttpError a s = HttpError b t"
  shows "a = b \<and> s = t"
proof -
  from assms
  have "''HTTP '' @ string_of_nat a @ '': '' @ s = ''HTTP '' @ string_of_nat b @ '': '' @ t"
    by (simp add: HttpError_def Error_def)
  then have e: "string_of_nat a @ CHR '':'' # ('' '' @ s)
      = string_of_nat b @ CHR '':'' # ('' '' @ t)"
    by simp
  have na: "CHR '':'' \<notin> set (string_of_nat a)" using string_of_nat_digits [of a] by auto
  have nb: "CHR '':'' \<notin> set (string_of_nat b)" using string_of_nat_digits [of b] by auto
  have "takeWhile (\<lambda>x. x \<noteq> CHR '':'') (string_of_nat a @ CHR '':'' # ('' '' @ s))
      = string_of_nat a"
    using na by (auto simp add: takeWhile_tail)
  moreover have "takeWhile (\<lambda>x. x \<noteq> CHR '':'') (string_of_nat b @ CHR '':'' # ('' '' @ t))
      = string_of_nat b"
    using nb by (auto simp add: takeWhile_tail)
  ultimately have "string_of_nat a = string_of_nat b" using e by simp
  with e show ?thesis by (simp add: string_of_nat_inj)
qed

lemma default_cfg_constructed:
  "cfg_of (fst (initServices to_number Map.empty None)) = Some default_cfg"
  by (simp add: cfg_of_def initServices_def DEFAULT_CONFIG_def Number_env_def default_cfg_def)

section \<open>The cache\<close>

text \<open>
  Claim C1. On every instance, after any sequence of calls, a call
  \<^verbatim>\<open>getWelcomeMessage(false)\<close> (or with the argument omitted) made while the slot holds
  a value (not \<^verbatim>\<open>null\<close>) and \<^verbatim>\<open>Date.now()\<close> is before the expiry instant returns the
  cached value, has no effect on the outside (no timer, no network request) and leaves
  the slot as it was, whatever the network would have answered.
\<close>

theorem fresh_slot_is_served:
  assumes "force = JBool False \<or> force = JUndefined"
    and "value' (run c calls) \<noteq> JNull"
    and "num_gt (expiresAt (run c calls)) (Num (of_int now))"
  shows "getWelcomeMessage c force now outcome (run c calls)
           = (Inr (value' (run c calls)), run c calls, [])"
proof -
  have "cache_inv (run c calls)" by (rule cache_inv_run)
  with assms(2) have "truthy (value' (run c calls))" by (auto simp add: cache_inv_def)
  with assms(1,3) show ?thesis by (simp add: getWelcomeMessage_hit)
qed

theorem fresh_slot_is_served_witness:
  "value' (run \<lparr>apiUrl = ''https://api.example.com/welcome'', timeoutMs = Num 5000, cacheTtlMs = Num 30000\<rparr>
       [GetWelcomeMessage JUndefined 1000
          (Responded \<lparr>status = 200, body_text = None,
                      body_json = Some (JObj [(''message'', JStr ''Hi there'')])\<rparr>)]) \<noteq> JNull
   \<and> num_gt (expiresAt (run \<lparr>apiUrl = ''https://api.example.com/welcome'', timeoutMs = Num 5000, cacheTtlMs = Num 30000\<rparr>
       [GetWelcomeMessage JUndefined 1000
          (Responded \<lparr>status = 200, body_text = None,
                      body_json = Some (JObj [(''message'', JStr ''Hi there'')])\<rparr>)])) (Num (of_int 30999))
   \<and> getWelcomeMessage \<lparr>apiUrl = ''https://api.example.com/welcome'', timeoutMs = Num 5000, cacheTtlMs = Num 30000\<rparr>
        (JBool False) 30999 TimerFired
        (run \<lparr>apiUrl = ''https://api.example.com/welcome'', timeoutMs = Num 5000, cacheTtlMs = Num 30000\<rparr>
       [GetWelcomeMessage JUndefined 1000
          (Responded \<lparr>status = 200, body_text = None,
                      body_json = Some (JObj [(''message'', JStr ''Hi there'')])\<rparr>)])
      = (Inr (JStr ''Hi there''), \<lparr>value' = JStr ''Hi there'', expiresAt = Num 31000\<rparr>, [])"
proof -
  let ?c = "\<lparr>apiUrl = ''https://api.example.com/welcome'', timeoutMs = Num 5000, cacheTtlMs = Num 30000\<rparr>"
  let ?calls = "[GetWelcomeMessage JUndefined 1000
          (Responded \<lparr>status = 200, body_text = None,
                      body_json = Some (JObj [(''message'', JStr ''Hi there'')])\<rparr>)]"
  have r: "run ?c ?calls = \<lparr>value' = JStr ''Hi there'', expiresAt = Num 31000\<rparr>"
    by (simp add: run_def initial_cache_def getWelcomeMessage_def fetchWithTimeout_def
        res_ok_def extract_message_def Let_def)
  have a: "value' (run ?c ?calls) \<noteq> JNull" by (simp add: r)
  have b: "num_gt (expiresAt (run ?c ?calls)) (Num (of_int 30999))" by (simp add: r)
  from fresh_slot_is_served [of "JBool False" ?c ?calls 30999 TimerFired] a b
  have "getWelcomeMessage ?c (JBool False) 30999 TimerFired (run ?c ?calls)
           = (Inr (value' (run ?c ?calls)), run ?c ?calls, [])" by simp
  with a b show ?thesis by (simp add: r)
qed

text \<open>
  Claim C8. A call \<^verbatim>\<open>getWelcomeMessage(true)\<close> (any truthy argument) issues the network
  request to the configured URL, whatever the slot holds: a fresh slot is not served.
  The witness has a fresh slot, from which the same call with \<^verbatim>\<open>false\<close> is served
  without a request.
\<close>

theorem forced_call_fetches:
  assumes "truthy force"
  shows "Fetch (apiUrl c) None \<in> set (snd (snd (getWelcomeMessage c force now outcome slot)))"
proof -
  obtain res es where f: "fetchWithTimeout c (apiUrl c) None outcome = (res, es)"
    by (cases "fetchWithTimeout c (apiUrl c) None outcome")
  with fetch_in_events [of "apiUrl c" None c outcome]
  have m: "Fetch (apiUrl c) None \<in> set es" by simp
  from assms have nu: "force \<noteq> JUndefined" by auto
  show ?thesis
  proof (cases res)
    case (Inl err)
    with assms nu f m show ?thesis by (simp add: getWelcomeMessage_def)
  next
    case (Inr data)
    with assms nu f m show ?thesis by (simp add: getWelcomeMessage_def Let_def)
  qed
qed

theorem forced_call_fetches_witness:
  "num_gt (expiresAt \<lparr>value' = JStr ''Hi there'', expiresAt = Num 31000\<rparr>) (Num 2000)
   \<and> Fetch ''https://api.example.com/welcome'' None
      \<in> set (snd (snd (getWelcomeMessage default_cfg (JBool True) 2000 TimerFired
                          \<lparr>value' = JStr ''Hi there'', expiresAt = Num 31000\<rparr>)))
   \<and> getWelcomeMessage default_cfg (JBool False) 2000 TimerFired
        \<lparr>value' = JStr ''Hi there'', expiresAt = Num 31000\<rparr>
     = (Inr (JStr ''Hi there''), \<lparr>value' = JStr ''Hi there'', expiresAt = Num 31000\<rparr>, [])"
proof -
  have t: "truthy (JBool True)" by simp
  from forced_call_fetches [OF t, of default_cfg 2000 TimerFired
      "\<lparr>value' = JStr ''Hi there'', expiresAt = Num 31000\<rparr>"]
  show ?thesis by (simp add: default_cfg_def getWelcomeMessage_def)
qed

text \<open>
  Claim C3. When a call \<^verbatim>\<open>getWelcomeMessage\<close> issues the request and
  \<^verbatim>\<open>fetchWithTimeout\<close> resolves with \<open>data\<close>, the call returns the message extracted
  from \<open>data\<close>, and the slot afterwards holds that message with the expiry
  \<^verbatim>\<open>now + cfg.cacheTtlMs\<close>, where \<^verbatim>\<open>now\<close> is the time read at the start of the call and
  the sum is the sum of doubles. When the TTL is an integer and both operands and the
  sum are below \<open>2\<close> to the power 53 in absolute value, as they are for a time in
  milliseconds and a TTL in milliseconds, the expiry is the exact sum. The extracted
  message is the \<^verbatim>\<open>message\<close> field of \<open>data\<close> when that is truthy.
\<close>

theorem successful_fetch_overwrites_slot:
  assumes "getWelcomeMessage c force now outcome slot = (r, slot', evs)"
    and "Fetch (apiUrl c) None \<in> set evs"
    and "fst (fetchWithTimeout c (apiUrl c) None outcome) = Inr data"
  shows "r = Inr (extract_message data)
     \<and> slot' = \<lparr>value' = extract_message data,
                expiresAt = num_add (Num (of_int now)) (cacheTtlMs c)\<rparr>
     \<and> (\<forall>v. message_field data = Some v \<and> truthy v \<longrightarrow> extract_message data = v)
     \<and> (\<forall>t. cacheTtlMs c = Num (of_int t)
            \<and> \<bar>now\<bar> < 2 ^ 53 \<and> \<bar>t\<bar> < 2 ^ 53 \<and> \<bar>now + t\<bar> < 2 ^ 53
          \<longrightarrow> expiresAt slot' = Num (of_int (now + t)))"
proof -
  obtain es where "fetchWithTimeout c (apiUrl c) None outcome = (Inr data, es)"
    using assms(3) by (cases "fetchWithTimeout c (apiUrl c) None outcome") simp
  with getWelcomeMessage_fetched [OF assms(1,2)]
  have s: "r = Inr (extract_message data)
     \<and> slot' = \<lparr>value' = extract_message data,
                expiresAt = num_add (Num (of_int now)) (cacheTtlMs c)\<rparr>"
    by simp
  have "expiresAt slot' = Num (of_int (now + t))"
    if "cacheTtlMs c = Num (of_int t)" and "\<bar>now\<bar> < 2 ^ 53" and "\<bar>t\<bar> < 2 ^ 53"
      and "\<bar>now + t\<bar> < 2 ^ 53" for t
    using s that(1) num_add_safe_int [OF that(2,3,4)] by simp
  with s show ?thesis by (simp add: extract_message_found)
qed

theorem successful_fetch_overwrites_slot_witness:
  "getWelcomeMessage default_cfg (JBool False) 40000
      (Responded \<lparr>status = 200, body_text = None,
                  body_json = Some (JObj [(''message'', JStr ''Good day'')])\<rparr>)
      \<lparr>value' = JStr ''Hi there'', expiresAt = Num 31000\<rparr>
     = (Inr (JStr ''Good day''), \<lparr>value' = JStr ''Good day'', expiresAt = Num 70000\<rparr>,
        [SetTimeout (Num 5000), Fetch ''https://api.example.com/welcome'' None, ClearTimeout,
         ClearTimeout])"
proof -
  let ?slot = "\<lparr>value' = JStr ''Hi there'', expiresAt = Num 31000\<rparr>"
  let ?data = "JObj [(''message'', JStr ''Good day'')]"
  let ?res = "Responded \<lparr>status = 200, body_text = None, body_json = Some ?data\<rparr>"
  obtain r s e where g: "getWelcomeMessage default_cfg (JBool False) 40000 ?res ?slot = (r, s, e)"
    by (cases "getWelcomeMessage default_cfg (JBool False) 40000 ?res ?slot")
  then have e: "e = [SetTimeout (Num 5000), Fetch ''https://api.example.com/welcome'' None,
      ClearTimeout, ClearTimeout]"
    by (auto simp add: getWelcomeMessage_def fetchWithTimeout_def default_cfg_def res_ok_def
        Let_def)
  have f: "fst (fetchWithTimeout default_cfg (apiUrl default_cfg) None ?res) = Inr ?data"
    by (simp add: fetchWithTimeout_def res_ok_def)
  have m: "Fetch (apiUrl default_cfg) None \<in> set e"
    by (simp add: e default_cfg_def)
  have v: "message_field ?data = Some (JStr ''Good day'') \<and> truthy (JStr ''Good day'')"
    by (simp add: message_field_def)
  from successful_fetch_overwrites_slot [OF g m f] g e v
  show ?thesis by (simp add: default_cfg_def)
qed

text \<open>
  Claim C4. When a call \<^verbatim>\<open>getWelcomeMessage\<close> issues the request and receives a 2xx
  response whose body cannot be parsed, or parses to a value whose \<^verbatim>\<open>message\<close> field is
  absent or falsy, the call returns the string \<^verbatim>\<open>Welcome\<close> and stores it in the slot
  (with the expiry of claim C3).
\<close>

theorem missing_message_defaults_to_Welcome:
  assumes "getWelcomeMessage c force now outcome slot = (r, slot', evs)"
    and "Fetch (apiUrl c) None \<in> set evs"
    and "outcome = Responded res"
    and "res_ok res"
    and "body_json res = None
       \<or> (\<exists>d. body_json res = Some d \<and> (\<forall>v. message_field d = Some v \<longrightarrow> \<not> truthy v))"
  shows "r = Inr (JStr ''Welcome'')
     \<and> slot' = \<lparr>value' = JStr ''Welcome'',
                expiresAt = num_add (Num (of_int now)) (cacheTtlMs c)\<rparr>"
proof -
  let ?data = "case body_json res of Some d \<Rightarrow> d | None \<Rightarrow> JObj []"
  have f: "fetchWithTimeout c (apiUrl c) None outcome
      = (Inr ?data, [SetTimeout (timeoutMs c), Fetch (apiUrl c) None, ClearTimeout, ClearTimeout])"
    using assms(3,4) by (simp add: fetchWithTimeout_def)
  have "\<forall>v. message_field ?data = Some v \<longrightarrow> \<not> truthy v"
    using assms(5) by (auto simp add: message_field_def)
  then have "extract_message ?data = JStr ''Welcome''"
    by (rule extract_message_default)
  with getWelcomeMessage_fetched [OF assms(1,2)] f show ?thesis by simp
qed

theorem missing_message_defaults_to_Welcome_witness:
  "getWelcomeMessage default_cfg JUndefined 1000
      (Responded \<lparr>status = 200, body_text = None, body_json = None\<rparr>) initial_cache
     = (Inr (JStr ''Welcome''), \<lparr>value' = JStr ''Welcome'', expiresAt = Num 31000\<rparr>,
        [SetTimeout (Num 5000), Fetch ''https://api.example.com/welcome'' None, ClearTimeout,
         ClearTimeout])
   \<and> getWelcomeMessage default_cfg JUndefined 1000
      (Responded \<lparr>status = 200, body_text = None,
                  body_json = Some (JObj [(''message'', JStr '''')])\<rparr>) initial_cache
     = (Inr (JStr ''Welcome''), \<lparr>value' = JStr ''Welcome'', expiresAt = Num 31000\<rparr>,
        [SetTimeout (Num 5000), Fetch ''https://api.example.com/welcome'' None, ClearTimeout,
         ClearTimeout])"
proof -
  let ?evs = "[SetTimeout (Num 5000), Fetch ''https://api.example.com/welcome'' None,
      ClearTimeout, ClearTimeout]"
  let ?r1 = "\<lparr>status = 200, body_text = None, body_json = None\<rparr>"
  let ?r2 = "\<lparr>status = 200, body_text = None,
      body_json = Some (JObj [(''message'', JStr '''')])\<rparr>"
  obtain a1 s1 e1 where g1:
    "getWelcomeMessage default_cfg JUndefined 1000 (Responded ?r1) initial_cache = (a1, s1, e1)"
    by (cases "getWelcomeMessage default_cfg JUndefined 1000 (Responded ?r1) initial_cache")
  then have e1: "e1 = ?evs"
    by (auto simp add: getWelcomeMessage_def fetchWithTimeout_def default_cfg_def res_ok_def
        initial_cache_def Let_def)
  have m1: "Fetch (apiUrl default_cfg) None \<in> set e1"
    by (simp add: e1 default_cfg_def)
  have ok1: "res_ok ?r1" by (simp add: res_ok_def)
  have j1: "body_json ?r1 = None
       \<or> (\<exists>d. body_json ?r1 = Some d \<and> (\<forall>v. message_field d = Some v \<longrightarrow> \<not> truthy v))"
    by simp
  from missing_message_defaults_to_Welcome [OF g1 m1 refl ok1 j1] g1 e1
  have first: "getWelcomeMessage default_cfg JUndefined 1000 (Responded ?r1) initial_cache
      = (Inr (JStr ''Welcome''), \<lparr>value' = JStr ''Welcome'', expiresAt = Num 31000\<rparr>, ?evs)"
    by (simp add: default_cfg_def)
  obtain a2 s2 e2 where g2:
    "getWelcomeMessage default_cfg JUndefined 1000 (Responded ?r2) initial_cache = (a2, s2, e2)"
    by (cases "getWelcomeMessage default_cfg JUndefined 1000 (Responded ?r2) initial_cache")
  then have e2: "e2 = ?evs"
    by (auto simp add: getWelcomeMessage_def fetchWithTimeout_def default_cfg_def res_ok_def
        initial_cache_def Let_def)
  have m2: "Fetch (apiUrl default_cfg) None \<in> set e2"
    by (simp add: e2 default_cfg_def)
  have ok2: "res_ok ?r2" by (simp add: res_ok_def)
  have j2: "body_json ?r2 = None
       \<or> (\<exists>d. body_json ?r2 = Some d \<and> (\<forall>v. message_field d = Some v \<longrightarrow> \<not> truthy v))"
    by (simp add: message_field_def)
  from missing_message_defaults_to_Welcome [OF g2 m2 refl ok2 j2] g2 e2
  have "getWelcomeMessage default_cfg JUndefined 1000 (Responded ?r2) initial_cache
      = (Inr (JStr ''Welcome''), \<lparr>value' = JStr ''Welcome'', expiresAt = Num 31000\<rparr>, ?evs)"
    by (simp add: default_cfg_def)
  with first show ?thesis by simp
qed

text \<open>
  Claim C2. When a call \<^verbatim>\<open>getWelcomeMessage\<close> issues the request and
  \<^verbatim>\<open>fetchWithTimeout\<close> rejects with an error (the abort of the timer, an HTTP error, a
  network error), the call rejects with that same error and the slot afterwards is the
  slot before: a stale value in the slot is not returned in place of the error.
\<close>

theorem failed_fetch_leaves_slot:
  assumes "getWelcomeMessage c force now outcome slot = (r, slot', evs)"
    and "Fetch (apiUrl c) None \<in> set evs"
    and "fst (fetchWithTimeout c (apiUrl c) None outcome) = Inl err"
  shows "r = Inl err \<and> slot' = slot"
proof -
  obtain es where "fetchWithTimeout c (apiUrl c) None outcome = (Inl err, es)"
    using assms(3) by (cases "fetchWithTimeout c (apiUrl c) None outcome") simp
  with getWelcomeMessage_fetched [OF assms(1,2)] show ?thesis by simp
qed

theorem failed_fetch_leaves_slot_witness:
  "getWelcomeMessage default_cfg (JBool False) 40000 TimerFired
      \<lparr>value' = JStr ''Hi there'', expiresAt = Num 31000\<rparr>
     = (Inl AbortError, \<lparr>value' = JStr ''Hi there'', expiresAt = Num 31000\<rparr>,
        [SetTimeout (Num 5000), Fetch ''https://api.example.com/welcome'' None, Abort,
         ClearTimeout])
   \<and> getWelcomeMessage default_cfg (JBool True) 2000
        (Responded \<lparr>status = 503, body_text = Some ''busy'', body_json = None\<rparr>)
        \<lparr>value' = JStr ''Hi there'', expiresAt = Num 31000\<rparr>
     = (Inl (Error ''HTTP 503: busy''), \<lparr>value' = JStr ''Hi there'', expiresAt = Num 31000\<rparr>,
        [SetTimeout (Num 5000), Fetch ''https://api.example.com/welcome'' None, ClearTimeout,
         ClearTimeout])"
proof -
  let ?slot = "\<lparr>value' = JStr ''Hi there'', expiresAt = Num 31000\<rparr>"
  let ?res = "Responded \<lparr>status = 503, body_text = Some ''busy'', body_json = None\<rparr>"
  obtain r1 s1 e1 where g1:
    "getWelcomeMessage default_cfg (JBool False) 40000 TimerFired ?slot = (r1, s1, e1)"
    by (cases "getWelcomeMessage default_cfg (JBool False) 40000 TimerFired ?slot")
  then have e1: "e1 = [SetTimeout (Num 5000), Fetch ''https://api.example.com/welcome'' None,
      Abort, ClearTimeout]"
    by (auto simp add: getWelcomeMessage_def fetchWithTimeout_def default_cfg_def)
  have f1: "fst (fetchWithTimeout default_cfg (apiUrl default_cfg) None TimerFired) = Inl AbortError"
    by (simp add: fetchWithTimeout_def)
  have "Fetch (apiUrl default_cfg) None \<in> set e1"
    by (simp add: e1 default_cfg_def)
  from failed_fetch_leaves_slot [OF g1 this f1] g1 e1
  have first: "getWelcomeMessage default_cfg (JBool False) 40000 TimerFired ?slot
     = (Inl AbortError, ?slot,
        [SetTimeout (Num 5000), Fetch ''https://api.example.com/welcome'' None, Abort,
         ClearTimeout])"
    by simp
  obtain r2 s2 e2 where g2:
    "getWelcomeMessage default_cfg (JBool True) 2000 ?res ?slot = (r2, s2, e2)"
    by (cases "getWelcomeMessage default_cfg (JBool True) 2000 ?res ?slot")
  then have e2: "e2 = [SetTimeout (Num 5000), Fetch ''https://api.example.com/welcome'' None,
      ClearTimeout, ClearTimeout]"
    by (auto simp add: getWelcomeMessage_def fetchWithTimeout_def default_cfg_def res_ok_def)
  have f2: "fst (fetchWithTimeout default_cfg (apiUrl default_cfg) None ?res)
      = Inl (Error ''HTTP 503: busy'')"
    by (simp add: fetchWithTimeout_def res_ok_def string_of_nat_503 HttpError_def)
  have "Fetch (apiUrl default_cfg) None \<in> set e2"
    by (simp add: e2 default_cfg_def)
  from failed_fetch_leaves_slot [OF g2 this f2] g2 e2
  have "getWelcomeMessage default_cfg (JBool True) 2000 ?res ?slot
     = (Inl (Error ''HTTP 503: busy''), ?slot,
        [SetTimeout (Num 5000), Fetch ''https://api.example.com/welcome'' None, ClearTimeout,
         ClearTimeout])"
    by simp
  with first show ?thesis by simp
qed

text \<open>
  Claim C10. The invariant \<open>cache_inv\<close> (the slot holds \<^verbatim>\<open>null\<close> with expiry 0, or a
  truthy value) holds after construction and is kept by every operation
  (\<^verbatim>\<open>getWelcomeMessage\<close>, \<^verbatim>\<open>healthCheck\<close>, \<^verbatim>\<open>clearCache\<close>), hence holds after every sequence of
  calls. So the empty string is never stored, and a stored value (not \<^verbatim>\<open>null\<close>) always
  passes the truthiness test of line 41: only the expiry decides whether it is served.
\<close>

theorem slot_is_empty_or_truthy:
  "cache_inv initial_cache
   \<and> (cache_inv slot \<longrightarrow> cache_inv (step c slot call))
   \<and> cache_inv (run c calls)
   \<and> value' (run c calls) \<noteq> JStr ''''
   \<and> (value' (run c calls) \<noteq> JNull \<longrightarrow> truthy (value' (run c calls)))"
proof -
  have i: "cache_inv (run c calls)" by (rule cache_inv_run)
  then have "value' (run c calls) \<noteq> JStr ''''"
    by (auto simp add: cache_inv_def)
  moreover from i have "value' (run c calls) \<noteq> JNull \<longrightarrow> truthy (value' (run c calls))"
    by (auto simp add: cache_inv_def)
  moreover have "cache_inv initial_cache"
    by (simp add: cache_inv_def initial_cache_def)
  ultimately show ?thesis using i cache_inv_step by blast
qed

theorem slot_is_empty_or_truthy_witness:
  "run default_cfg
     [GetWelcomeMessage JUndefined 1000
        (Responded \<lparr>status = 200, body_text = None,
                    body_json = Some (JObj [(''message'', JStr '''')])\<rparr>),
      HealthCheck TimerFired]
     = \<lparr>value' = JStr ''Welcome'', expiresAt = Num 31000\<rparr>
   \<and> truthy (value' (run default_cfg
     [GetWelcomeMessage JUndefined 1000
        (Responded \<lparr>status = 200, body_text = None,
                    body_json = Some (JObj [(''message'', JStr '''')])\<rparr>),
      HealthCheck TimerFired]))
   \<and> cache_inv (step default_cfg \<lparr>value' = JStr ''Welcome'', expiresAt = Num 31000\<rparr> ClearCache)
   \<and> step default_cfg \<lparr>value' = JStr ''Welcome'', expiresAt = Num 31000\<rparr> ClearCache
     = \<lparr>value' = JNull, expiresAt = Num 0\<rparr>"
proof -
  let ?calls = "[GetWelcomeMessage JUndefined 1000
        (Responded \<lparr>status = 200, body_text = None,
                    body_json = Some (JObj [(''message'', JStr '''')])\<rparr>),
      HealthCheck TimerFired]"
  let ?slot = "\<lparr>value' = JStr ''Welcome'', expiresAt = Num 31000\<rparr>"
  have r: "run default_cfg ?calls = ?slot"
    by (simp add: run_def initial_cache_def getWelcomeMessage_def healthCheck_def
        fetchWithTimeout_def res_ok_def extract_message_def default_cfg_def Let_def)
  have n: "value' (run default_cfg ?calls) \<noteq> JNull" by (simp add: r)
  have s: "cache_inv ?slot" by (simp add: cache_inv_def)
  from slot_is_empty_or_truthy [of ?slot default_cfg ClearCache ?calls] n s
  have "truthy (value' (run default_cfg ?calls)) \<and> cache_inv (step default_cfg ?slot ClearCache)"
    by blast
  with r show ?thesis by (simp add: clearCache_def)
qed

section \<open>Errors\<close>

text \<open>
  Claim C5. When the request receives a response whose status is not 2xx,
  \<^verbatim>\<open>fetchWithTimeout\<close> rejects with the error of line 31, built from the status code
  and the body text, where the body text is the empty string if reading the body
  fails; a call \<^verbatim>\<open>getWelcomeMessage\<close> that issued the request rejects with the same
  error. The error carries both: its message determines the status code and the text.
\<close>

theorem http_error_carries_status:
  assumes "outcome = Responded res" and "\<not> res_ok res"
  shows "fst (fetchWithTimeout c url opts outcome)
       = Inl (HttpError (status res) (case body_text res of Some t \<Rightarrow> t | None \<Rightarrow> ''''))
     \<and> (\<forall>r slot' evs.
          getWelcomeMessage c force now outcome slot = (r, slot', evs)
            \<and> Fetch (apiUrl c) None \<in> set evs
          \<longrightarrow> r = Inl (HttpError (status res)
                        (case body_text res of Some t \<Rightarrow> t | None \<Rightarrow> '''')))
     \<and> (\<forall>n b.
          HttpError n b
            = HttpError (status res) (case body_text res of Some t \<Rightarrow> t | None \<Rightarrow> '''')
          \<longrightarrow> n = status res
              \<and> b = (case body_text res of Some t \<Rightarrow> t | None \<Rightarrow> ''''))"
proof -
  let ?e = "HttpError (status res) (case body_text res of Some t \<Rightarrow> t | None \<Rightarrow> '''')"
  have f: "\<And>u p. fetchWithTimeout c u p outcome
      = (Inl ?e, [SetTimeout (timeoutMs c), Fetch u p, ClearTimeout, ClearTimeout])"
    using assms by (simp add: fetchWithTimeout_def)
  have "fst (fetchWithTimeout c url opts outcome) = Inl ?e"
    by (simp add: f)
  moreover have "r = Inl ?e"
    if "getWelcomeMessage c force now outcome slot = (r, slot', evs)"
      and "Fetch (apiUrl c) None \<in> set evs" for r slot' evs
    using getWelcomeMessage_fetched [OF that] by (simp add: f)
  moreover have "n = status res
      \<and> b = (case body_text res of Some t \<Rightarrow> t | None \<Rightarrow> '''')"
    if "HttpError n b = ?e" for n b
    using that by (rule HttpError_inj)
  ultimately show ?thesis by blast
qed

theorem http_error_carries_status_witness:
  "fst (fetchWithTimeout default_cfg ''https://api.example.com/welcome'' None
          (Responded \<lparr>status = 404, body_text = Some ''not found'', body_json = None\<rparr>))
     = Inl \<lparr>err_name = ''Error'', err_message = ''HTTP 404: not found''\<rparr>
   \<and> fst (fetchWithTimeout default_cfg ''https://api.example.com/welcome'' None
          (Responded \<lparr>status = 503, body_text = None, body_json = None\<rparr>))
     = Inl \<lparr>err_name = ''Error'', err_message = ''HTTP 503: ''\<rparr>"
proof -
  let ?r1 = "\<lparr>status = 404, body_text = Some ''not found'', body_json = None\<rparr>"
  let ?r2 = "\<lparr>status = 503, body_text = None, body_json = None\<rparr>"
  have n1: "\<not> res_ok ?r1" by (simp add: res_ok_def)
  have n2: "\<not> res_ok ?r2" by (simp add: res_ok_def)
  from http_error_carries_status [OF refl n1, of default_cfg]
       http_error_carries_status [OF refl n2, of default_cfg]
  show ?thesis
    by (simp add: HttpError_def Error_def string_of_nat_404 string_of_nat_503)
qed

text \<open>
  Claim C6. When the timer fires before a response has arrived, \<^verbatim>\<open>fetchWithTimeout\<close>
  has armed the timer with \<^verbatim>\<open>cfg.timeoutMs\<close>, issued the request and aborted it, and it
  rejects with the abort error; that error is none of the HTTP errors of line 31; a
  call \<^verbatim>\<open>getWelcomeMessage\<close> that issued the request rejects with the abort error and
  leaves the slot as it was.
\<close>

theorem timeout_aborts_and_propagates:
  "fetchWithTimeout c url opts TimerFired
     = (Inl AbortError, [SetTimeout (timeoutMs c), Fetch url opts, Abort, ClearTimeout])
   \<and> AbortError \<noteq> HttpError n b
   \<and> (\<forall>r slot' evs.
        getWelcomeMessage c force now TimerFired slot = (r, slot', evs)
          \<and> Fetch (apiUrl c) None \<in> set evs
        \<longrightarrow> r = Inl AbortError \<and> slot' = slot)"
proof -
  have f: "\<And>u p. fetchWithTimeout c u p TimerFired
      = (Inl AbortError, [SetTimeout (timeoutMs c), Fetch u p, Abort, ClearTimeout])"
    by (simp add: fetchWithTimeout_def)
  have "AbortError \<noteq> HttpError n b"
    by (simp add: AbortError_def HttpError_def Error_def)
  moreover have "r = Inl AbortError \<and> slot' = slot"
    if "getWelcomeMessage c force now TimerFired slot = (r, slot', evs)"
      and "Fetch (apiUrl c) None \<in> set evs" for r slot' evs
    using getWelcomeMessage_fetched [OF that] by (simp add: f)
  ultimately show ?thesis using f by blast
qed

theorem timeout_aborts_and_propagates_witness:
  "getWelcomeMessage default_cfg JUndefined 1000 TimerFired initial_cache
     = (Inl \<lparr>err_name = ''AbortError'', err_message = ''This operation was aborted''\<rparr>,
        initial_cache,
        [SetTimeout (Num 5000), Fetch ''https://api.example.com/welcome'' None, Abort,
         ClearTimeout])"
proof -
  obtain r s e where g:
    "getWelcomeMessage default_cfg JUndefined 1000 TimerFired initial_cache = (r, s, e)"
    by (cases "getWelcomeMessage default_cfg JUndefined 1000 TimerFired initial_cache")
  then have e: "e = [SetTimeout (Num 5000), Fetch ''https://api.example.com/welcome'' None,
      Abort, ClearTimeout]"
    by (auto simp add: getWelcomeMessage_def fetchWithTimeout_def default_cfg_def
        initial_cache_def)
  have m: "Fetch (apiUrl default_cfg) None \<in> set e"
    by (simp add: e default_cfg_def)
  from timeout_aborts_and_propagates [where c = default_cfg and force = JUndefined and now = 1000 and slot = initial_cache] g m
  have "r = Inl AbortError \<and> s = initial_cache" by blast
  with g e show ?thesis by (simp add: AbortError_def)
qed

text \<open>
  Claim C7. \<^verbatim>\<open>healthCheck\<close> always resolves (it never rejects), leaves the slot as it
  was, and its only effects are those of the \<^verbatim>\<open>HEAD\<close> probe. If the probe resolves the
  result is \<^verbatim>\<open>{ok: true, info: 'up', endpoint: cfg.apiUrl}\<close>; if the probe rejects with
  an error the result is \<^verbatim>\<open>{ok: false, info, endpoint: cfg.apiUrl}\<close> where \<^verbatim>\<open>info\<close> is the
  error's message, or \<^verbatim>\<open>unreachable\<close> when the error has no message (the empty string).
\<close>

theorem healthCheck_never_raises:
  "(\<exists>h. healthCheck c outcome slot
          = (Inr h, slot, snd (fetchWithTimeout c (apiUrl c) (Some ''HEAD'') outcome)))
   \<and> (\<forall>d. fst (fetchWithTimeout c (apiUrl c) (Some ''HEAD'') outcome) = Inr d
        \<longrightarrow> fst (healthCheck c outcome slot)
            = Inr \<lparr>ok = True, info = ''up'', endpoint = apiUrl c\<rparr>)
   \<and> (\<forall>err. fst (fetchWithTimeout c (apiUrl c) (Some ''HEAD'') outcome) = Inl err
        \<longrightarrow> fst (healthCheck c outcome slot)
            = Inr \<lparr>ok = False,
                   info = (if err_message err = [] then ''unreachable'' else err_message err),
                   endpoint = apiUrl c\<rparr>)"
proof -
  obtain res es where f: "fetchWithTimeout c (apiUrl c) (Some ''HEAD'') outcome = (res, es)"
    by (cases "fetchWithTimeout c (apiUrl c) (Some ''HEAD'') outcome")
  show ?thesis
  proof (cases res)
    case (Inl err)
    with f show ?thesis by (simp add: healthCheck_def)
  next
    case (Inr d)
    with f show ?thesis by (simp add: healthCheck_def)
  qed
qed

theorem healthCheck_never_raises_witness:
  "fst (healthCheck default_cfg
          (Responded \<lparr>status = 204, body_text = None, body_json = None\<rparr>) initial_cache)
     = Inr \<lparr>ok = True, info = ''up'', endpoint = ''https://api.example.com/welcome''\<rparr>
   \<and> fst (healthCheck default_cfg TimerFired initial_cache)
     = Inr \<lparr>ok = False, info = ''This operation was aborted'',
            endpoint = ''https://api.example.com/welcome''\<rparr>
   \<and> fst (healthCheck default_cfg
          (Responded \<lparr>status = 503, body_text = None, body_json = None\<rparr>) initial_cache)
     = Inr \<lparr>ok = False, info = ''HTTP 503: '', endpoint = ''https://api.example.com/welcome''\<rparr>
   \<and> fst (healthCheck default_cfg
          (Rejected \<lparr>err_name = ''TypeError'', err_message = ''''\<rparr>) initial_cache)
     = Inr \<lparr>ok = False, info = ''unreachable'', endpoint = ''https://api.example.com/welcome''\<rparr>"
proof -
  let ?up = "Responded \<lparr>status = 204, body_text = None, body_json = None\<rparr>"
  let ?down = "Responded \<lparr>status = 503, body_text = None, body_json = None\<rparr>"
  let ?net = "Rejected \<lparr>err_name = ''TypeError'', err_message = ''''\<rparr>"
  have f1: "fst (fetchWithTimeout default_cfg (apiUrl default_cfg) (Some ''HEAD'') ?up)
      = Inr (JObj [])"
    by (simp add: fetchWithTimeout_def res_ok_def)
  have f2: "fst (fetchWithTimeout default_cfg (apiUrl default_cfg) (Some ''HEAD'') TimerFired)
      = Inl AbortError"
    by (simp add: fetchWithTimeout_def)
  have f3: "fst (fetchWithTimeout default_cfg (apiUrl default_cfg) (Some ''HEAD'') ?down)
      = Inl (Error ''HTTP 503: '')"
    by (simp add: fetchWithTimeout_def res_ok_def string_of_nat_503 HttpError_def)
  have f4: "fst (fetchWithTimeout default_cfg (apiUrl default_cfg) (Some ''HEAD'') ?net)
      = Inl \<lparr>err_name = ''TypeError'', err_message = ''''\<rparr>"
    by (simp add: fetchWithTimeout_def)
  from healthCheck_never_raises [of default_cfg ?up initial_cache] f1
  have h1: "fst (healthCheck default_cfg ?up initial_cache)
      = Inr \<lparr>ok = True, info = ''up'', endpoint = apiUrl default_cfg\<rparr>"
    by blast
  from healthCheck_never_raises [of default_cfg TimerFired initial_cache] f2
  have h2: "fst (healthCheck default_cfg TimerFired initial_cache)
      = Inr \<lparr>ok = False,
             info = (if err_message AbortError = [] then ''unreachable''
                     else err_message AbortError),
             endpoint = apiUrl default_cfg\<rparr>"
    by blast
  from healthCheck_never_raises [of default_cfg ?down initial_cache] f3
  have h3: "fst (healthCheck default_cfg ?down initial_cache)
      = Inr \<lparr>ok = False,
             info = (if err_message (Error ''HTTP 503: '') = [] then ''unreachable''
                     else err_message (Error ''HTTP 503: '')),
             endpoint = apiUrl default_cfg\<rparr>"
    by blast
  from healthCheck_never_raises [of default_cfg ?net initial_cache] f4
  have h4: "fst (healthCheck default_cfg ?net initial_cache)
      = Inr \<lparr>ok = False,
             info = (if err_message \<lparr>err_name = ''TypeError'', err_message = ''''\<rparr> = []
                     then ''unreachable''
                     else err_message \<lparr>err_name = ''TypeError'', err_message = ''''\<rparr>),
             endpoint = apiUrl default_cfg\<rparr>"
    by blast
  from h1 h2 h3 h4 show ?thesis
    by (simp add: default_cfg_def AbortError_def Error_def)
qed

section \<open>Construction\<close>

text \<open>
  Claim C9, as amended. The effective configuration is the field-wise merge of the
  supplied object over the defaults: a field the object has is kept as supplied,
  whatever its value, and a missing field takes the default. The fallback to 5000 ms
  and 30000 ms is in the defaults only: the default of \<^verbatim>\<open>timeoutMs\<close> (of \<^verbatim>\<open>cacheTtlMs\<close>) is
  5000 (30000) when \<^verbatim>\<open>Number\<close> of the environment variable is falsy, that is \<^verbatim>\<open>NaN\<close> (the
  variable is unset or not numeric) or zero, and is that number otherwise.
\<close>

theorem supplied_fields_are_kept:
  "fst (initServices to_number env (Some config)) k
     = (case config k of Some v \<Rightarrow> Some v | None \<Rightarrow> DEFAULT_CONFIG to_number env k)
   \<and> fst (initServices to_number env None) k = DEFAULT_CONFIG to_number env k
   \<and> (\<not> num_truthy (Number_env to_number (env ''SERVICE_TIMEOUT_MS''))
        \<longrightarrow> DEFAULT_CONFIG to_number env ''timeoutMs'' = Some (JNum (Num 5000)))
   \<and> (\<not> num_truthy (Number_env to_number (env ''CACHE_TTL_MS''))
        \<longrightarrow> DEFAULT_CONFIG to_number env ''cacheTtlMs'' = Some (JNum (Num 30000)))
   \<and> (num_truthy (Number_env to_number (env ''SERVICE_TIMEOUT_MS''))
        \<longrightarrow> DEFAULT_CONFIG to_number env ''timeoutMs''
            = Some (JNum (Number_env to_number (env ''SERVICE_TIMEOUT_MS''))))
   \<and> (num_truthy (Number_env to_number (env ''CACHE_TTL_MS''))
        \<longrightarrow> DEFAULT_CONFIG to_number env ''cacheTtlMs''
            = Some (JNum (Number_env to_number (env ''CACHE_TTL_MS''))))"
proof -
  have "fst (initServices to_number env (Some config)) k
     = (case config k of Some v \<Rightarrow> Some v | None \<Rightarrow> DEFAULT_CONFIG to_number env k)"
    by (simp add: initServices_def map_add_def split: option.splits)
  moreover have "fst (initServices to_number env None) k = DEFAULT_CONFIG to_number env k"
    by (simp add: initServices_def)
  moreover have "\<not> num_truthy (Number_env to_number (env ''SERVICE_TIMEOUT_MS''))
        \<longrightarrow> DEFAULT_CONFIG to_number env ''timeoutMs'' = Some (JNum (Num 5000))"
    by (simp add: DEFAULT_CONFIG_def)
  moreover have "\<not> num_truthy (Number_env to_number (env ''CACHE_TTL_MS''))
        \<longrightarrow> DEFAULT_CONFIG to_number env ''cacheTtlMs'' = Some (JNum (Num 30000))"
    by (simp add: DEFAULT_CONFIG_def)
  moreover have "num_truthy (Number_env to_number (env ''SERVICE_TIMEOUT_MS''))
        \<longrightarrow> DEFAULT_CONFIG to_number env ''timeoutMs''
            = Some (JNum (Number_env to_number (env ''SERVICE_TIMEOUT_MS'')))"
    by (simp add: DEFAULT_CONFIG_def)
  moreover have "num_truthy (Number_env to_number (env ''CACHE_TTL_MS''))
        \<longrightarrow> DEFAULT_CONFIG to_number env ''cacheTtlMs''
            = Some (JNum (Number_env to_number (env ''CACHE_TTL_MS'')))"
    by (simp add: DEFAULT_CONFIG_def)
  ultimately show ?thesis by blast
qed

theorem supplied_fields_are_kept_witness:
  "fst (initServices (\<lambda>s. if s = ''250'' then Num 250 else NaN)
          [''SERVICE_TIMEOUT_MS'' \<mapsto> ''250'', ''CACHE_TTL_MS'' \<mapsto> ''soon'']
          (Some [''apiUrl'' \<mapsto> JStr ''http://localhost/welcome''])) ''apiUrl''
     = Some (JStr ''http://localhost/welcome'')
   \<and> fst (initServices (\<lambda>s. if s = ''250'' then Num 250 else NaN)
          [''SERVICE_TIMEOUT_MS'' \<mapsto> ''250'', ''CACHE_TTL_MS'' \<mapsto> ''soon'']
          (Some [''apiUrl'' \<mapsto> JStr ''http://localhost/welcome''])) ''timeoutMs''
     = Some (JNum (Num 250))
   \<and> fst (initServices (\<lambda>s. if s = ''250'' then Num 250 else NaN)
          [''SERVICE_TIMEOUT_MS'' \<mapsto> ''250'', ''CACHE_TTL_MS'' \<mapsto> ''soon'']
          (Some [''apiUrl'' \<mapsto> JStr ''http://localhost/welcome''])) ''cacheTtlMs''
     = Some (JNum (Num 30000))"
proof -
  let ?n = "\<lambda>s. if s = ''250'' then Num 250 else NaN"
  let ?env = "[''SERVICE_TIMEOUT_MS'' \<mapsto> ''250'', ''CACHE_TTL_MS'' \<mapsto> ''soon'']"
  let ?config = "[''apiUrl'' \<mapsto> JStr ''http://localhost/welcome'']"
  have a: "\<not> num_truthy (Number_env ?n (?env ''CACHE_TTL_MS''))" by (simp add: Number_env_def)
  have b: "num_truthy (Number_env ?n (?env ''SERVICE_TIMEOUT_MS''))" by (simp add: Number_env_def)
  have c: "Number_env ?n (?env ''SERVICE_TIMEOUT_MS'') = Num 250" by (simp add: Number_env_def)
  from supplied_fields_are_kept [of ?n ?env ?config "''apiUrl''"]
  have 1: "fst (initServices ?n ?env (Some ?config)) ''apiUrl''
      = Some (JStr ''http://localhost/welcome'')" by simp
  from supplied_fields_are_kept [of ?n ?env ?config "''timeoutMs''"] b c
  have 2: "fst (initServices ?n ?env (Some ?config)) ''timeoutMs'' = Some (JNum (Num 250))"
    by simp
  from supplied_fields_are_kept [of ?n ?env ?config "''cacheTtlMs''"] a
  have 3: "fst (initServices ?n ?env (Some ?config)) ''cacheTtlMs'' = Some (JNum (Num 30000))"
    by simp
  from 1 2 3 show ?thesis by blast
qed

text \<open>
  The claim as first stated fails: a non-numeric \<^verbatim>\<open>timeoutMs\<close> or \<^verbatim>\<open>cacheTtlMs\<close> supplied
  in the object is not replaced by the default, which here is 5000 and 30000.
\<close>

theorem supplied_malformed_value_counterexample:
  "fst (initServices (\<lambda>s. NaN) Map.empty
          (Some [''timeoutMs'' \<mapsto> JStr ''abc'', ''cacheTtlMs'' \<mapsto> JNull])) ''timeoutMs''
     = Some (JStr ''abc'')
   \<and> fst (initServices (\<lambda>s. NaN) Map.empty
          (Some [''timeoutMs'' \<mapsto> JStr ''abc'', ''cacheTtlMs'' \<mapsto> JNull])) ''timeoutMs''
     \<noteq> Some (JNum (Num 5000))
   \<and> fst (initServices (\<lambda>s. NaN) Map.empty
          (Some [''timeoutMs'' \<mapsto> JStr ''abc'', ''cacheTtlMs'' \<mapsto> JNull])) ''cacheTtlMs''
     = Some JNull
   \<and> fst (initServices (\<lambda>s. NaN) Map.empty
          (Some [''timeoutMs'' \<mapsto> JStr ''abc'', ''cacheTtlMs'' \<mapsto> JNull])) ''cacheTtlMs''
     \<noteq> Some (JNum (Num 30000))
   \<and> DEFAULT_CONFIG (\<lambda>s. NaN) Map.empty ''timeoutMs'' = Some (JNum (Num 5000))
   \<and> DEFAULT_CONFIG (\<lambda>s. NaN) Map.empty ''cacheTtlMs'' = Some (JNum (Num 30000))"
  by (simp add: initServices_def DEFAULT_CONFIG_def Number_env_def)

end
